theory Spec2Isabelle
  imports Complex_Main "HOL-Library.AList"
begin

section \<open>The batch packer\<close>

text \<open>
  \<^verbatim>\<open>create_batched_sequence_datasest(sequences, max_tokens_per_batch)\<close> of
  \<^verbatim>\<open>src/evaluation/fold_eval_tts.py\<close> (lines 65 to 89) is a generator. Its loop state is
  the triple \<^verbatim>\<open>batch_headers, batch_sequences, num_tokens\<close>; every \<^verbatim>\<open>yield\<close> emits
  the pair \<^verbatim>\<open>(batch_headers, batch_sequences)\<close>. The two lists are replaced by fresh
  lists right after a \<^verbatim>\<open>yield\<close>, so a batch that was handed out is never mutated
  afterwards, and the generator is modelled by the list of the batches it yields, in order.
  Sequences are strings, \<^verbatim>\<open>len(seq)\<close> is the length of the string, and the budget is
  a Python \<^verbatim>\<open>int\<close> (argparse accepts any integer, also zero and negative ones).
\<close>

type_synonym batch = "string list \<times> string list"

fun batch_loop ::
  "(string \<times> string) list \<Rightarrow> int \<Rightarrow> string list \<Rightarrow> string list \<Rightarrow> int \<Rightarrow> batch list"
where
  "batch_loop [] max_tokens_per_batch batch_headers batch_sequences num_tokens =
     [(batch_headers, batch_sequences)]"
| "batch_loop ((header, seq) # rest) max_tokens_per_batch batch_headers batch_sequences num_tokens =
     (if int (length seq) + num_tokens \<le> max_tokens_per_batch
      then batch_loop rest max_tokens_per_batch
             (batch_headers @ [header]) (batch_sequences @ [seq]) (num_tokens + int (length seq))
      else (batch_headers, batch_sequences) #
           batch_loop rest max_tokens_per_batch [header] [seq] (0 + int (length seq)))"

definition create_batched_sequence_datasest :: "(string \<times> string) list \<Rightarrow> int \<Rightarrow> batch list" where
  "create_batched_sequence_datasest sequences max_tokens_per_batch =
     batch_loop sequences max_tokens_per_batch [] [] 0"

text \<open>The pairs of a batch, and the token count of a batch (the sum of its sequence lengths).\<close>

definition batch_pairs :: "batch \<Rightarrow> (string \<times> string) list" where
  "batch_pairs b = zip (fst b) (snd b)"

definition batch_tokens :: "batch \<Rightarrow> int" where
  "batch_tokens b = (\<Sum>s\<leftarrow>snd b. int (length s))"

section \<open>Python values, exceptions and strings\<close>

text \<open>
  The values an exception can carry in its \<^verbatim>\<open>args\<close> tuple, as far as the handler of
  \<^verbatim>\<open>run\<close> tells them apart. The handler evaluates
  \<^verbatim>\<open>e.args[0].startswith("CUDA out of memory")\<close> and nothing else on the value: a
  \<^verbatim>\<open>str\<close> answers by its text; \<^verbatim>\<open>bytes\<close> have the method but refuse a \<^verbatim>\<open>str\<close>
  argument with \<^verbatim>\<open>TypeError\<close>; an \<^verbatim>\<open>int\<close> and \<^verbatim>\<open>None\<close> have no such attribute. A
  value of any other class is \<open>PyObject r\<close>, where \<open>r\<close> is what that one call does on it:
  \<open>Inl e\<close> when the attribute lookup or the call raises \<open>e\<close>, \<open>Inr b\<close> when the call
  returns a value whose truth value is \<open>b\<close>.

  Exceptions. \<open>RuntimeError args\<close> is an instance of \<^verbatim>\<open>RuntimeError\<close> or of a subclass
  of it (what \<^verbatim>\<open>except RuntimeError\<close> catches) with its \<^verbatim>\<open>args\<close> tuple;
  \<open>OtherError name args\<close> is an exception of any class outside that hierarchy. The
  remaining constructors are the exceptions the modelled code itself raises.
\<close>

datatype pyval =
    PyStr string
  | PyBytes string
  | PyInt int
  | PyNone
  | PyObject "exn + bool"
and exn =
    RuntimeError "pyval list"
  | OtherError string "pyval list"
  | IndexError
  | AttributeError
  | TypeError
  | ZeroDivisionError
  | ValueError
  | KeyError

text \<open>
  A string is a text of code points below 256, one \<^typ>\<open>char\<close> per code point (the
  type has no other code points). \<open>isspace\<close> is the whitespace of \<^verbatim>\<open>str.strip()\<close> and
  \<^verbatim>\<open>str.split()\<close> among these: tab, line feed, vertical tab, form feed, carriage
  return, the four separators \<^verbatim>\<open>\x1c\<close> to \<^verbatim>\<open>\x1f\<close>, the space, the next-line
  character \<^verbatim>\<open>\x85\<close> and the no-break space \<^verbatim>\<open>\xa0\<close>. The list is used where an
  example run is evaluated; the general properties of the run hold whichever characters
  are whitespace.
\<close>

definition isspace :: "char \<Rightarrow> bool" where
  "isspace c \<longleftrightarrow>
     c \<in> set [CHR 0x09, CHR 0x0A, CHR 0x0B, CHR 0x0C, CHR 0x0D,
               CHR 0x1C, CHR 0x1D, CHR 0x1E, CHR 0x1F, CHR 0x20, CHR 0x85, CHR 0xA0]"

definition strip :: "string \<Rightarrow> string" where
  "strip s = rev (dropWhile isspace (rev (dropWhile isspace s)))"

text \<open>\<^verbatim>\<open>s.split()\<close>: the maximal runs of non-whitespace characters, in order.\<close>

fun split_words :: "string \<Rightarrow> string \<Rightarrow> string list" where
  "split_words word [] = (if word = [] then [] else [word])"
| "split_words word (c # cs) =
     (if isspace c
      then (if word = [] then split_words [] cs else word # split_words [] cs)
      else split_words (word @ [c]) cs)"

definition split :: "string \<Rightarrow> string list" where
  "split s = split_words [] s"

text \<open>\<^verbatim>\<open>s.split(sep)\<close> for a one-character separator: the pieces between the separators.\<close>

fun split_pieces :: "char \<Rightarrow> string \<Rightarrow> string \<Rightarrow> string list" where
  "split_pieces sep piece [] = [piece]"
| "split_pieces sep piece (c # cs) =
     (if c = sep then piece # split_pieces sep [] cs else split_pieces sep (piece @ [c]) cs)"

definition split_sep :: "char \<Rightarrow> string \<Rightarrow> string list" where
  "split_sep sep s = split_pieces sep [] s"

definition startswith :: "string \<Rightarrow> string \<Rightarrow> bool" where
  "startswith s p \<longleftrightarrow> take (length p) s = p"

text \<open>\<^verbatim>\<open>sep.join(xs)\<close>.\<close>

fun join :: "string \<Rightarrow> string list \<Rightarrow> string" where
  "join sep [] = []"
| "join sep [x] = x"
| "join sep (x # y # ys) = x @ sep @ join sep (y # ys)"

section \<open>Scores and their arithmetic\<close>

text \<open>
  A confidence score is an element of the tensors \<^verbatim>\<open>output["mean_plddt"]\<close> and
  \<^verbatim>\<open>output["ptm"]\<close>, a floating-point value whose format the code does not fix.
  The type \<open>'s\<close> of scores and the operations that \<^verbatim>\<open>run\<close> applies to scores are
  parameters: \<open>sum_start x\<close> is \<^verbatim>\<open>0 + x\<close> (the first step of the built-in
  \<^verbatim>\<open>sum\<close>, which starts from the integer 0), \<open>score_add x y\<close> is \<^verbatim>\<open>x + y\<close>,
  \<open>score_div x n\<close> is \<^verbatim>\<open>x / n\<close> for a score \<open>x\<close> and the integer \<open>n\<close>,
  \<open>zero_div n\<close> is \<^verbatim>\<open>0 / n\<close> for the integers 0 and \<open>n > 0\<close>, and
  \<open>score_format d x\<close> is the text \<^verbatim>\<open>f"{x:0.<d>f}"\<close>. What is proved for every
  arithmetic holds for the floating-point arithmetic of the tensors, with its rounding,
  its signed zeros, its infinities and its not-a-number.
\<close>

record 's arithmetic =
  sum_start :: "'s \<Rightarrow> 's"
  score_add :: "'s \<Rightarrow> 's \<Rightarrow> 's"
  score_div :: "'s \<Rightarrow> nat \<Rightarrow> 's"
  zero_div :: "nat \<Rightarrow> 's"
  score_format :: "nat \<Rightarrow> 's \<Rightarrow> string"

text \<open>
  \<^verbatim>\<open>sum(values)\<close>: \<open>None\<close> is the integer 0, the sum of no value; the sum of
  \<open>v\<^sub>1, \<dots>, v\<^sub>n\<close> is \<open>(\<dots>((0 + v\<^sub>1) + v\<^sub>2) \<dots>) + v\<^sub>n\<close>.
\<close>

definition py_sum :: "'s arithmetic \<Rightarrow> 's list \<Rightarrow> 's option" where
  "py_sum ar values =
     (case values of
        [] \<Rightarrow> None
      | v # vs \<Rightarrow> Some (foldl (score_add ar) (sum_start ar v) vs))"

text \<open>
  \<^verbatim>\<open>sum(values) / n\<close> (lines 248 and 249): the quotient of the integers 0 and 0 raises
  \<^verbatim>\<open>ZeroDivisionError\<close>; the quotient of a score by an integer is a score.
\<close>

definition average :: "'s arithmetic \<Rightarrow> 's list \<Rightarrow> nat \<Rightarrow> exn + 's" where
  "average ar values n =
     (case py_sum ar values of
        None \<Rightarrow> if n = 0 then Inl ZeroDivisionError else Inr (zero_div ar n)
      | Some s \<Rightarrow> Inr (score_div ar s n))"

section \<open>Reading and writing the annotated FASTA file\<close>

text \<open>
  A record of \<^verbatim>\<open>parse_fasta\<close> is a dictionary with the keys \<^verbatim>\<open>id\<close>, \<^verbatim>\<open>seq\<close> and
  \<^verbatim>\<open>annotations\<close>. A Python dictionary keeps its keys in insertion order and an
  assignment to a present key keeps the key's place: it is an association list with
  distinct keys, assigned to with \<^const>\<open>AList.update\<close> and read with \<^const>\<open>map_of\<close>.
\<close>

type_synonym ('k, 'v) dict = "('k \<times> 'v) list"

record fasta_record =
  rec_id :: string
  rec_seq :: string
  annotations :: "(string, string) dict"

text \<open>
  The dictionary comprehension \<^verbatim>\<open>{k: v for k, v in (item.split('=') for item in items)}\<close>:
  unpacking a split that has not exactly two pieces raises \<^verbatim>\<open>ValueError\<close>.
\<close>

fun annotations_of_items :: "string list \<Rightarrow> (string, string) dict \<Rightarrow> exn + (string, string) dict" where
  "annotations_of_items [] d = Inr d"
| "annotations_of_items (item # items) d =
     (case split_sep CHR ''='' item of
        [k, v] \<Rightarrow> annotations_of_items items (AList.update k v d)
      | _ \<Rightarrow> Inl ValueError)"

text \<open>
  \<^verbatim>\<open>if seq_id: sequences.append({...})\<close>, where \<^verbatim>\<open>seq_id\<close> is \<^verbatim>\<open>None\<close> before the
  first header line.
\<close>

definition append_record ::
  "fasta_record list \<Rightarrow> string option \<Rightarrow> string list \<Rightarrow> (string, string) dict \<Rightarrow> fasta_record list"
where
  "append_record sequences seq_id seq annots =
     (case seq_id of
        None \<Rightarrow> sequences
      | Some i \<Rightarrow>
          if i = [] then sequences
          else sequences @ [\<lparr>rec_id = i, rec_seq = concat seq, annotations = annots\<rparr>])"

text \<open>The loop \<^verbatim>\<open>for line in f\<close> of \<^verbatim>\<open>parse_fasta\<close>, over the lines of the file.\<close>

fun parse_lines ::
  "string list \<Rightarrow> fasta_record list \<Rightarrow> string option \<Rightarrow> string list \<Rightarrow> (string, string) dict
     \<Rightarrow> exn + fasta_record list"
where
  "parse_lines [] sequences seq_id seq annots = Inr (append_record sequences seq_id seq annots)"
| "parse_lines (raw # rest) sequences seq_id seq annots =
     (let line = strip raw in
      if startswith line ''>''
      then (case split (drop 1 line) of
              [] \<Rightarrow> Inl IndexError
            | h0 # items \<Rightarrow>
                (case annotations_of_items items [] of
                   Inl e \<Rightarrow> Inl e
                 | Inr annots' \<Rightarrow>
                     parse_lines rest (append_record sequences seq_id seq annots)
                       (Some h0) [] annots'))
      else parse_lines rest sequences seq_id (seq @ [line]) annots)"

definition parse_fasta :: "string list \<Rightarrow> exn + fasta_record list" where
  "parse_fasta file_lines = parse_lines file_lines [] None [] []"

text \<open>\<^verbatim>\<open>write_fasta\<close>: the text written to the file.\<close>

definition write_fasta :: "fasta_record list \<Rightarrow> string" where
  "write_fasta sequences =
     concat (map (\<lambda>seq.
        ''>'' @ rec_id seq @ '' '' @ join '' '' (map (\<lambda>(k, v). k @ ''='' @ v) (annotations seq))
          @ [CHR 0x0A] @ rec_seq seq @ [CHR 0x0A]) sequences)"

text \<open>
  Modelled from the spec: \<^verbatim>\<open>read_fasta\<close> (line 180) is a function of the \<^verbatim>\<open>esm\<close>
  library and is not in the repository. The spec gives the format it reads (section 6:
  each record has a header line starting with \<^verbatim>\<open>>\<close>, followed by an id token and
  optional annotation tokens, and one or more sequence lines, concatenated to form the
  sequence) and what \<^verbatim>\<open>run\<close> gets from it (section 4.1: an ordered sequence of
  \<^verbatim>\<open>(header, sequence)\<close> pairs). \<open>read_fasta\<close> returns, for each record of the file in
  order, the header line without its \<^verbatim>\<open>>\<close> and the sequence; which lines are header
  lines and what belongs to a line is read as \<^verbatim>\<open>parse_fasta\<close> reads the same file.
\<close>

definition append_entry ::
  "(string \<times> string) list \<Rightarrow> string option \<Rightarrow> string \<Rightarrow> (string \<times> string) list"
where
  "append_entry entries header seq =
     (case header of None \<Rightarrow> entries | Some h \<Rightarrow> entries @ [(h, seq)])"

fun read_lines ::
  "string list \<Rightarrow> (string \<times> string) list \<Rightarrow> string option \<Rightarrow> string \<Rightarrow> (string \<times> string) list"
where
  "read_lines [] entries header seq = append_entry entries header seq"
| "read_lines (raw # rest) entries header seq =
     (let line = strip raw in
      if startswith line ''>''
      then read_lines rest (append_entry entries header seq) (Some (drop 1 line)) []
      else read_lines rest entries header (seq @ line))"

definition read_fasta :: "string list \<Rightarrow> (string \<times> string) list" where
  "read_fasta file_lines = read_lines file_lines [] None []"

section \<open>The inference loop\<close>

text \<open>
  The structure-prediction model is outside the repository. What \<^verbatim>\<open>run\<close> reads from a
  successful \<^verbatim>\<open>model.infer\<close> call is the list \<^verbatim>\<open>model.output_to_pdb(output)\<close> and
  the two score vectors \<^verbatim>\<open>output["mean_plddt"]\<close> and \<^verbatim>\<open>output["ptm"]\<close> (the fields
  \<open>out_pdbs\<close>, \<open>out_mean_plddt\<close> and \<open>out_ptm\<close>). The call
  either returns such an output or raises; it is a parameter of the model, a function of
  the position of the batch in the run and of the batch's sequences (the recycle count is
  the same argument in every call and is part of the parameter). The conversions that
  follow a successful call (\<^verbatim>\<open>value.cpu()\<close> and \<^verbatim>\<open>output_to_pdb\<close>) are taken to
  return.
\<close>

record 's inference_output =
  out_pdbs :: "string list"
  out_mean_plddt :: "'s list"
  out_ptm :: "'s list"

type_synonym 's infer = "nat \<Rightarrow> string list \<Rightarrow> exn + 's inference_output"

text \<open>
  The state the loop of \<^verbatim>\<open>run\<close> updates: the files written into the output directory
  by \<^verbatim>\<open>write_text\<close> (file name and text; writing a name again replaces the text, and
  every write is taken to succeed), the
  counter \<^verbatim>\<open>num_completed\<close> and the two dictionaries. \<open>completed\<close> is the history of
  the loop body of lines 237 to 247, one entry (sequence id, mean confidence, global
  confidence) per pass, oldest first; the code does not read it.
\<close>

record 's run_state =
  pdb_files :: "(string, string) dict"
  num_completed :: nat
  pLDDT_dict :: "(string, 's) dict"
  pTM_dict :: "(string, 's) dict"
  completed :: "(string \<times> 's \<times> 's) list"

definition initial_state :: "'s run_state" where
  "initial_state =
     \<lparr>pdb_files = [], num_completed = 0, pLDDT_dict = [], pTM_dict = [], completed = []\<rparr>"

text \<open>
  \<^verbatim>\<open>e.args[0].startswith("CUDA out of memory")\<close> on the first argument of the
  exception: the truth value of what the call returns, or the exception it raises.
\<close>

fun startswith_call :: "pyval \<Rightarrow> exn + bool" where
  "startswith_call (PyStr msg) = Inr (startswith msg ''CUDA out of memory'')"
| "startswith_call (PyBytes b) = Inl TypeError"
| "startswith_call (PyInt i) = Inl AttributeError"
| "startswith_call PyNone = Inl AttributeError"
| "startswith_call (PyObject r) = r"

text \<open>
  The handler \<^verbatim>\<open>except RuntimeError as e\<close> (lines 213 to 226). \<open>Inr ()\<close> is
  \<^verbatim>\<open>continue\<close>; \<open>Inl\<close> is the exception that leaves the handler: the caught one when
  it is raised again, or the one the handler's own code raises (\<^verbatim>\<open>e.args[0]\<close> on an
  empty tuple, the \<^verbatim>\<open>startswith\<close> call, \<^verbatim>\<open>headers[0]\<close> and \<^verbatim>\<open>sequences[0]\<close> on
  an empty batch). An exception that is not a \<^verbatim>\<open>RuntimeError\<close> is not caught.
\<close>

definition except_RuntimeError :: "exn \<Rightarrow> string list \<Rightarrow> string list \<Rightarrow> exn + unit" where
  "except_RuntimeError e headers sequences =
     (case e of
        RuntimeError args \<Rightarrow>
          (case args of
             [] \<Rightarrow> Inl IndexError
           | a # _ \<Rightarrow>
               (case startswith_call a of
                  Inl e' \<Rightarrow> Inl e'
                | Inr is_oom \<Rightarrow>
                    if is_oom
                    then (if length sequences > 1 then Inr ()
                          else if headers = [] \<or> sequences = [] then Inl IndexError
                          else Inr ())
                    else Inl e))
      | _ \<Rightarrow> Inl e)"

text \<open>
  The loop over \<^verbatim>\<open>zip(headers, sequences, pdbs, output["mean_plddt"], output["ptm"])\<close>
  (lines 234 to 247); \<^verbatim>\<open>header.split()[0]\<close> raises \<^verbatim>\<open>IndexError\<close> on a header
  without a word.
\<close>

fun record_predictions ::
  "(string \<times> string \<times> string \<times> 's \<times> 's) list \<Rightarrow> 's run_state \<Rightarrow> exn + 's run_state"
where
  "record_predictions [] st = Inr st"
| "record_predictions ((header, seq, pdb_string, mean_plddt, ptm) # rest) st =
     (case split header of
        [] \<Rightarrow> Inl IndexError
      | seq_id # _ \<Rightarrow>
          record_predictions rest
            (st\<lparr>pdb_files := AList.update (seq_id @ ''.pdb'') pdb_string (pdb_files st),
                num_completed := num_completed st + 1,
                pLDDT_dict := AList.update seq_id mean_plddt (pLDDT_dict st),
                pTM_dict := AList.update seq_id ptm (pTM_dict st),
                completed := completed st @ [(seq_id, mean_plddt, ptm)]\<rparr>))"

text \<open>
  The loop over the batches (lines 209 to 247); \<open>k\<close> counts the calls of
  \<^verbatim>\<open>model.infer\<close>. The quotient \<^verbatim>\<open>tottime / len(headers)\<close> of line 231 raises
  \<^verbatim>\<open>ZeroDivisionError\<close> on an empty batch.
\<close>

fun predict_batches ::
  "'s infer \<Rightarrow> nat \<Rightarrow> batch list \<Rightarrow> 's run_state \<Rightarrow> exn + 's run_state"
where
  "predict_batches infer k [] st = Inr st"
| "predict_batches infer k ((headers, sequences) # rest) st =
     (case infer k sequences of
        Inl e \<Rightarrow>
          (case except_RuntimeError e headers sequences of
             Inl e' \<Rightarrow> Inl e'
           | Inr _ \<Rightarrow> predict_batches infer (Suc k) rest st)
      | Inr out \<Rightarrow>
          if length headers = 0 then Inl ZeroDivisionError
          else (case record_predictions
                       (zip headers (zip sequences
                          (zip (out_pdbs out) (zip (out_mean_plddt out) (out_ptm out)))))
                       st of
                  Inl e \<Rightarrow> Inl e
                | Inr st' \<Rightarrow> predict_batches infer (Suc k) rest st'))"

section \<open>The run\<close>

text \<open>
  What \<^verbatim>\<open>run\<close> has done when it logs the averages (line 250): the final state of the
  loop and the two averages.
\<close>

record 's report =
  final :: "'s run_state"
  avg_pLDDT :: 's
  avg_pTM :: 's

text \<open>
  \<^verbatim>\<open>run(args)\<close> from line 180 to line 250, for an input file that exists;
  \<open>file_lines\<close> are the lines of the file. \<^verbatim>\<open>sorted\<close> is stable, and so is
  \<^const>\<open>sort_key\<close>. The generator of batches is consumed to its end unless an
  exception leaves the loop, and it has no effect of its own, so the loop runs over the list
  of its batches.
\<close>

definition run_predictions ::
  "'s arithmetic \<Rightarrow> string list \<Rightarrow> int \<Rightarrow> 's infer \<Rightarrow> exn + 's report"
where
  "run_predictions ar file_lines max_tokens_per_batch infer =
     (let all_sequences =
            sort_key (\<lambda>header_seq. length (snd header_seq)) (read_fasta file_lines);
          batched_sequences = create_batched_sequence_datasest all_sequences max_tokens_per_batch
      in case predict_batches infer 0 batched_sequences initial_state of
           Inl e \<Rightarrow> Inl e
         | Inr st \<Rightarrow>
             (case average ar (map snd (pLDDT_dict st)) (num_completed st) of
                Inl e \<Rightarrow> Inl e
              | Inr avg_p \<Rightarrow>
                  (case average ar (map snd (pTM_dict st)) (num_completed st) of
                     Inl e \<Rightarrow> Inl e
                   | Inr avg_t \<Rightarrow> Inr \<lparr>final = st, avg_pLDDT = avg_p, avg_pTM = avg_t\<rparr>)))"

text \<open>
  The loop of lines 254 to 258 over the records read back from the FASTA file;
  \<^verbatim>\<open>pTM_dict[seq_id]\<close> raises \<^verbatim>\<open>KeyError\<close> when the key is missing.
\<close>

fun annotate ::
  "'s arithmetic \<Rightarrow> (string, 's) dict \<Rightarrow> (string, 's) dict \<Rightarrow> fasta_record list
     \<Rightarrow> exn + fasta_record list"
where
  "annotate ar plddts ptms [] = Inr []"
| "annotate ar plddts ptms (seq # rest) =
     (case map_of plddts (rec_id seq) of
        None \<Rightarrow>
          (case annotate ar plddts ptms rest of
             Inl e \<Rightarrow> Inl e
           | Inr rest' \<Rightarrow> Inr (seq # rest'))
      | Some p \<Rightarrow>
          (case map_of ptms (rec_id seq) of
             None \<Rightarrow> Inl KeyError
           | Some t \<Rightarrow>
               (case annotate ar plddts ptms rest of
                  Inl e \<Rightarrow> Inl e
                | Inr rest' \<Rightarrow>
                    Inr (seq\<lparr>annotations :=
                             AList.update ''pTM'' (score_format ar 3 t)
                               (AList.update ''pLDDT'' (score_format ar 1 p) (annotations seq))\<rparr>
                         # rest'))))"

text \<open>
  What a run that returns has done: what it had done at line 250, and the records and the
  text it writes back to the FASTA file.
\<close>

record 's run_result = "'s report" +
  fasta_records :: "fasta_record list"
  fasta_text :: string

text \<open>
  \<^verbatim>\<open>run(args)\<close> from line 180 on: the predictions and the averages, then the rewriting
  of the FASTA file (lines 252 to 260). \<^verbatim>\<open>parse_fasta\<close> reads the file that
  \<^verbatim>\<open>read_fasta\<close> has read; the run does not write to it in between.
\<close>

definition run ::
  "'s arithmetic \<Rightarrow> string list \<Rightarrow> int \<Rightarrow> 's infer \<Rightarrow> exn + 's run_result"
where
  "run ar file_lines max_tokens_per_batch infer =
     (case run_predictions ar file_lines max_tokens_per_batch infer of
        Inl e \<Rightarrow> Inl e
      | Inr rep \<Rightarrow>
          (case parse_fasta file_lines of
             Inl e \<Rightarrow> Inl e
           | Inr sequences_with_annotations \<Rightarrow>
               (case annotate ar (pLDDT_dict (final rep)) (pTM_dict (final rep))
                       sequences_with_annotations of
                  Inl e \<Rightarrow> Inl e
                | Inr annotated \<Rightarrow>
                    Inr \<lparr>final = final rep, avg_pLDDT = avg_pLDDT rep, avg_pTM = avg_pTM rep,
                         fasta_records = annotated, fasta_text = write_fasta annotated\<rparr>)))"

section \<open>Notions used to state the properties\<close>

text \<open>
  \<open>dict_of kvs\<close> is the dictionary that the assignments \<^verbatim>\<open>d[k] = v\<close>, made in the
  order of the list \<open>kvs\<close> on an empty dictionary, leave behind: one entry per distinct
  key, holding the value assigned last.
\<close>

definition dict_of :: "('k \<times> 'v) list \<Rightarrow> ('k, 'v) dict" where
  "dict_of kvs = foldl (\<lambda>d (k, v). AList.update k v d) [] kvs"

text \<open>The assignments to the two dictionaries that a history of completed sequences stands for.\<close>

definition plddt_assignments :: "(string \<times> 's \<times> 's) list \<Rightarrow> (string \<times> 's) list" where
  "plddt_assignments c = map (\<lambda>(seq_id, mean_plddt, ptm). (seq_id, mean_plddt)) c"

definition ptm_assignments :: "(string \<times> 's \<times> 's) list \<Rightarrow> (string \<times> 's) list" where
  "ptm_assignments c = map (\<lambda>(seq_id, mean_plddt, ptm). (seq_id, ptm)) c"

text \<open>
  The mean of a list of scores as the arithmetic of the scores computes it: the scores
  summed from the first to the last, as \<^verbatim>\<open>sum\<close> does, and the sum divided by their
  number; there is none for the empty list.
\<close>

definition py_mean :: "'s arithmetic \<Rightarrow> 's list \<Rightarrow> 's option" where
  "py_mean ar xs = map_option (\<lambda>s. score_div ar s (length xs)) (py_sum ar xs)"

text \<open>
  The state of the loop agrees with its history: the counter counts the completed
  sequences, the dictionaries are what the assignments of the history leave behind, and
  the files written are the files \<^verbatim>\<open><id>.pdb\<close> of the completed sequences.
\<close>

definition consistent :: "'s run_state \<Rightarrow> bool" where
  "consistent st \<longleftrightarrow>
     num_completed st = length (completed st)
     \<and> pLDDT_dict st = dict_of (plddt_assignments (completed st))
     \<and> pTM_dict st = dict_of (ptm_assignments (completed st))
     \<and> fst ` set (pdb_files st) = (\<lambda>seq_id. seq_id @ ''.pdb'') ` fst ` set (completed st)"





section \<open>Example runs\<close>

subsection \<open>An arithmetic for the examples\<close>

text \<open>
  The example runs take scores from the numbers 0, 0.5, 0.75, 70, 80 and 90. These numbers,
  their sums and the halves of the sums are values of every binary floating-point
  format, so that floating-point addition and division compute them without rounding:
  on the example runs the arithmetic of the real numbers is the arithmetic of the tensors.
  \<open>format_f d x\<close> is the text \<^verbatim>\<open>f"{x:0.<d>f}"\<close> for \<open>d > 0\<close> of a float that
  stands for the real number \<open>x\<close>: the decimal expansion with \<open>d\<close> digits after
  the point, rounded to the nearest such number, a tie to the even one. The real numbers
  have no negative zero (which a float has, and which is written with a sign), no infinity
  and no not-a-number; none of them is a score of the examples, and the properties of the
  run are proved for every arithmetic and do not rest on \<open>format_f\<close>.
\<close>

definition round_half_even :: "real \<Rightarrow> int" where
  "round_half_even x =
     (let f = \<lfloor>x\<rfloor>; r = x - of_int f
      in if r < 1 / 2 then f else if 1 / 2 < r then f + 1 else if even f then f else f + 1)"

fun decimal :: "nat \<Rightarrow> string" where
  "decimal n =
     (if n < 10 then [''0123456789'' ! n]
      else decimal (n div 10) @ [''0123456789'' ! (n mod 10)])"

definition format_f :: "nat \<Rightarrow> real \<Rightarrow> string" where
  "format_f d x =
     (let q = nat (round_half_even (\<bar>x\<bar> * 10 ^ d));
          frac = decimal (q mod 10 ^ d)
      in (if x < 0 then ''-'' else []) @ decimal (q div 10 ^ d) @ ''.''
           @ replicate (d - length frac) CHR ''0'' @ frac)"

definition exact_arithmetic :: "real arithmetic" where
  "exact_arithmetic =
     \<lparr>sum_start = (\<lambda>x. 0 + x), score_add = (\<lambda>x y. x + y), score_div = (\<lambda>x n. x / real n),
      zero_div = (\<lambda>n. 0 / real n), score_format = format_f\<rparr>"

subsection \<open>Inputs and results\<close>

text \<open>The failure that the loop recovers from, as the accelerator backend words it.\<close>

definition cuda_oom :: exn where
  "cuda_oom = RuntimeError [PyStr ''CUDA out of memory. Tried to allocate 2.00 GiB'']"

text \<open>
  A run in which no sequence completes: one sequence, and an inference call that runs out
  of device memory.
\<close>

definition infer_always_oom :: "'s infer" where
  "infer_always_oom k sequences = Inl cuda_oom"




text \<open>
  Two records with the same id \<^verbatim>\<open>a\<close>, predicted in one batch, with given scores for the
  two sequences, shorter sequence first.
\<close>

definition twin_lines :: "string list" where
  "twin_lines =
     [''>a'' @ [CHR 0x0A], ''MK'' @ [CHR 0x0A], ''>a'' @ [CHR 0x0A], ''MKV'' @ [CHR 0x0A]]"

definition infer_scores :: "'s list \<Rightarrow> 's list \<Rightarrow> 's infer" where
  "infer_scores plddts ptms k sequences =
     Inr \<lparr>out_pdbs = map (\<lambda>s. ''ATOM '' @ s) sequences,
          out_mean_plddt = plddts, out_ptm = ptms\<rparr>"

definition twin_report :: "real report" where
  "twin_report =
     \<lparr>final = \<lparr>pdb_files = [(''a.pdb'', ''ATOM MKV'')], num_completed = 2,
                pLDDT_dict = [(''a'', 90)], pTM_dict = [(''a'', 0.75)],
                completed = [(''a'', 80, 0.5), (''a'', 90, 0.75)]\<rparr>,
      avg_pLDDT = 45, avg_pTM = 0.375\<rparr>"

definition twin_zero_report :: "real report" where
  "twin_zero_report =
     \<lparr>final = \<lparr>pdb_files = [(''a.pdb'', ''ATOM MKV'')], num_completed = 2,
                pLDDT_dict = [(''a'', 70)], pTM_dict = [(''a'', 0.5)],
                completed = [(''a'', 0, 0), (''a'', 70, 0.5)]\<rparr>,
      avg_pLDDT = 35, avg_pTM = 0.25\<rparr>"

text \<open>
  Inference calls that fail on the first batch with a given exception and predict every
  later batch.
\<close>

definition infer_failing_first :: "exn \<Rightarrow> real infer" where
  "infer_failing_first e k sequences =
     (if k = 0 then Inl e
      else Inr \<lparr>out_pdbs = map (\<lambda>s. ''ATOM '' @ s) sequences,
                out_mean_plddt = map (\<lambda>s. 90) sequences,
                out_ptm = map (\<lambda>s. 0.75) sequences\<rparr>)"

definition two_batches :: "batch list" where
  "two_batches = [([''a''], [''MK'']), ([''b''], [''MKV''])]"

definition second_batch_done :: "real run_state" where
  "second_batch_done =
     \<lparr>pdb_files = [(''b.pdb'', ''ATOM MKV'')], num_completed = 1,
      pLDDT_dict = [(''b'', 90)], pTM_dict = [(''b'', 0.75)], completed = [(''b'', 90, 0.75)]\<rparr>"

section \<open>Properties of the batch packer\<close>

lemma batch_loop_concat:
  "length bh = length bs \<Longrightarrow>
   concat (map batch_pairs (batch_loop xs B bh bs n)) = zip bh bs @ xs"
proof (induction xs arbitrary: bh bs n)
  case Nil
  then show ?case by (simp add: batch_pairs_def)
next
  case (Cons x xs)
  obtain header seq where x: "x = (header, seq)" by (cases x)
  show ?case
  proof (cases "int (length seq) + n \<le> B")
    case True
    have "length (bh @ [header]) = length (bs @ [seq])" using Cons.prems by simp
    from Cons.IH [OF this] True Cons.prems show ?thesis by (simp add: x)
  next
    case False
    have "length [header] = length [seq]" by simp
    from Cons.IH [OF this] False show ?thesis by (simp add: x batch_pairs_def)
  qed
qed

lemma batch_loop_lengths:
  "length bh = length bs \<Longrightarrow>
   \<forall>b \<in> set (batch_loop xs B bh bs n). length (fst b) = length (snd b)"
proof (induction xs arbitrary: bh bs n)
  case Nil
  then show ?case by simp
next
  case (Cons x xs)
  obtain header seq where x: "x = (header, seq)" by (cases x)
  show ?case
  proof (cases "int (length seq) + n \<le> B")
    case True
    have "length (bh @ [header]) = length (bs @ [seq])" using Cons.prems by simp
    from Cons.IH [OF this] True show ?thesis by (simp add: x)
  next
    case False
    have "length [header] = length [seq]" by simp
    from Cons.IH [OF this] False Cons.prems show ?thesis by (simp add: x)
  qed
qed


text \<open>
  Claim C5. For every input list of (header, sequence) pairs and every budget, the batches
  emitted by the packer, concatenated in order, are the input list itself: no pair is
  dropped, none is duplicated, and the order is kept. (Each batch holds as many headers as
  sequences, so pairing them up loses nothing.)
\<close>

theorem packer_concat_reconstructs_input:
  "concat (map batch_pairs (create_batched_sequence_datasest sequences max_tokens_per_batch))
     = sequences
   \<and> concat (map fst (create_batched_sequence_datasest sequences max_tokens_per_batch))
     = map fst sequences
   \<and> concat (map snd (create_batched_sequence_datasest sequences max_tokens_per_batch))
     = map snd sequences"
proof -
  let ?bs = "create_batched_sequence_datasest sequences max_tokens_per_batch"
  have c: "concat (map batch_pairs ?bs) = sequences"
    using batch_loop_concat [of "[]" "[]" sequences max_tokens_per_batch 0]
    by (simp add: create_batched_sequence_datasest_def)
  have l: "\<forall>b \<in> set ?bs. length (fst b) = length (snd b)"
    using batch_loop_lengths [of "[]" "[]" sequences max_tokens_per_batch 0]
    by (simp add: create_batched_sequence_datasest_def)
  have f: "concat (map fst bs) = map fst (concat (map batch_pairs bs))"
    if "\<forall>b \<in> set bs. length (fst b) = length (snd b)" for bs :: "batch list"
    using that by (induction bs) (simp_all add: batch_pairs_def)
  have s: "concat (map snd bs) = map snd (concat (map batch_pairs bs))"
    if "\<forall>b \<in> set bs. length (fst b) = length (snd b)" for bs :: "batch list"
    using that by (induction bs) (simp_all add: batch_pairs_def)
  show ?thesis using c f [OF l] s [OF l] by simp
qed

lemma batch_loop_budget:
  assumes "0 \<le> B"
    and "n = (\<Sum>s\<leftarrow>bs. int (length s))"
    and "length bh = length bs"
    and "n \<le> B \<or> length bs = 1"
  shows "\<forall>b \<in> set (batch_loop xs B bh bs n).
           batch_tokens b \<le> B \<or> (\<exists>h s. b = ([h], [s]) \<and> B < int (length s))"
  using assms
proof (induction xs arbitrary: bh bs n)
  case Nil
  show ?case
  proof (cases "n \<le> B")
    case True
    with Nil show ?thesis by (simp add: batch_tokens_def)
  next
    case False
    with Nil have "length bs = 1" and "length bh = 1" by simp_all
    then obtain h s where "bh = [h]" and "bs = [s]"
      by (auto simp: length_Suc_conv)
    with False Nil show ?thesis by (simp add: batch_tokens_def)
  qed
next
  case (Cons x xs)
  obtain header seq where x: "x = (header, seq)" by (cases x)
  have emitted: "batch_tokens (bh, bs) \<le> B \<or> (\<exists>h s. (bh, bs) = ([h], [s]) \<and> B < int (length s))"
  proof (cases "n \<le> B")
    case True
    with Cons.prems show ?thesis by (simp add: batch_tokens_def)
  next
    case False
    with Cons.prems have "length bs = 1" and "length bh = 1" by simp_all
    then obtain h s where "bh = [h]" and "bs = [s]"
      by (auto simp: length_Suc_conv)
    with False Cons.prems show ?thesis by (simp add: batch_tokens_def)
  qed
  show ?case
  proof (cases "int (length seq) + n \<le> B")
    case True
    have "\<forall>b \<in> set (batch_loop xs B (bh @ [header]) (bs @ [seq]) (n + int (length seq))).
            batch_tokens b \<le> B \<or> (\<exists>h s. b = ([h], [s]) \<and> B < int (length s))"
      using Cons.prems True by (intro Cons.IH) simp_all
    with True show ?thesis by (simp add: x)
  next
    case False
    have "\<forall>b \<in> set (batch_loop xs B [header] [seq] (0 + int (length seq))).
            batch_tokens b \<le> B \<or> (\<exists>h s. b = ([h], [s]) \<and> B < int (length s))"
      using Cons.prems by (intro Cons.IH) simp_all
    with False emitted show ?thesis by (simp add: x)
  qed
qed

lemma batch_loop_nonpositive_budget:
  assumes "B \<le> 0" and "0 \<le> n" and "\<forall>(h, s) \<in> set xs. s \<noteq> []"
  shows "batch_loop xs B bh bs n = (bh, bs) # map (\<lambda>(h, s). ([h], [s])) xs"
  using assms
proof (induction xs arbitrary: bh bs n)
  case Nil
  then show ?case by simp
next
  case (Cons x xs)
  obtain header seq where x: "x = (header, seq)" by (cases x)
  from Cons.prems x have "seq \<noteq> []" by simp
  then have "0 < length seq" by simp
  with Cons.prems(1,2) have over: "\<not> int (length seq) + n \<le> B" by linarith
  have "batch_loop xs B [header] [seq] (0 + int (length seq))
          = ([header], [seq]) # map (\<lambda>(h, s). ([h], [s])) xs"
    using Cons.prems by (intro Cons.IH) simp_all
  with over show ?case by (simp add: x)
qed

lemma batch_loop_not_Nil: "batch_loop xs B bh bs n \<noteq> []"
  by (induction xs arbitrary: bh bs n) (auto split: if_splits)

lemma batch_loop_later_batches_nonempty:
  "bs \<noteq> [] \<Longrightarrow> \<forall>b \<in> set (batch_loop xs B bh bs n). snd b \<noteq> []"
proof (induction xs arbitrary: bh bs n)
  case Nil
  then show ?case by simp
next
  case (Cons x xs)
  obtain header seq where x: "x = (header, seq)" by (cases x)
  have 1: "\<forall>b \<in> set (batch_loop xs B (bh @ [header]) (bs @ [seq]) (n + int (length seq))).
             snd b \<noteq> []"
    by (rule Cons.IH) simp
  have 2: "\<forall>b \<in> set (batch_loop xs B [header] [seq] (0 + int (length seq))). snd b \<noteq> []"
    by (rule Cons.IH) simp
  from 1 2 Cons.prems show ?case by (simp add: x)
qed

text \<open>
  Where the packer emits an empty batch: the batch under construction is empty only before
  the first pair has been placed, so only the first emitted batch can be empty, and it is
  empty exactly when the input is empty or the first sequence alone exceeds the budget.
\<close>

lemma packer_empty_batch_only_first:
  "create_batched_sequence_datasest sequences B \<noteq> []"
  "\<forall>b \<in> set (tl (create_batched_sequence_datasest sequences B)). snd b \<noteq> []"
  "snd (hd (create_batched_sequence_datasest sequences B)) = [] \<longleftrightarrow>
     sequences = [] \<or> B < int (length (snd (hd sequences)))"
proof -
  show "create_batched_sequence_datasest sequences B \<noteq> []"
    by (simp add: create_batched_sequence_datasest_def batch_loop_not_Nil)
  show "\<forall>b \<in> set (tl (create_batched_sequence_datasest sequences B)). snd b \<noteq> []"
  proof (cases sequences)
    case Nil
    then show ?thesis by (simp add: create_batched_sequence_datasest_def)
  next
    case (Cons x xs)
    obtain header seq where x: "x = (header, seq)" by (cases x)
    have "\<forall>b \<in> set (batch_loop xs B hs [seq] n). snd b \<noteq> []" for hs n
      by (rule batch_loop_later_batches_nonempty) simp
    then have *: "\<forall>b \<in> set (batch_loop xs B [header] [seq] (int (length seq))). snd b \<noteq> []"
      by blast
    show ?thesis
    proof (cases "int (length seq) \<le> B")
      case True
      have "set (tl ys) \<subseteq> set ys" for ys :: "batch list" by (cases ys) auto
      with * True show ?thesis
        by (auto simp: Cons x create_batched_sequence_datasest_def)
    next
      case False
      with * show ?thesis
        by (simp add: Cons x create_batched_sequence_datasest_def)
    qed
  qed
  show "snd (hd (create_batched_sequence_datasest sequences B)) = [] \<longleftrightarrow>
     sequences = [] \<or> B < int (length (snd (hd sequences)))"
  proof (cases sequences)
    case Nil
    then show ?thesis by (simp add: create_batched_sequence_datasest_def)
  next
    case (Cons x xs)
    obtain header seq where x: "x = (header, seq)" by (cases x)
    have ne: "\<forall>b \<in> set (batch_loop xs B [header] [seq] (int (length seq))). snd b \<noteq> []"
      by (rule batch_loop_later_batches_nonempty) simp
    have "batch_loop xs B [header] [seq] (int (length seq)) \<noteq> []"
      by (rule batch_loop_not_Nil)
    then have "hd (batch_loop xs B [header] [seq] (int (length seq)))
                 \<in> set (batch_loop xs B [header] [seq] (int (length seq)))"
      by simp
    with ne have "snd (hd (batch_loop xs B [header] [seq] (int (length seq)))) \<noteq> []"
      by blast
    then show ?thesis
      by (simp add: Cons x create_batched_sequence_datasest_def)
  qed
qed



text \<open>
  Claim C6. For every input list, sorted or not, and every budget \<open>B\<close> of the packer's
  contract (the theorem takes any \<open>B \<ge> 0\<close>), each emitted batch has a token count of at
  most \<open>B\<close>, unless it consists of exactly one pair whose sequence alone is longer than
  \<open>B\<close>. In particular a batch of two or more pairs never exceeds the budget: the packer
  extends a batch only after checking the sum, also on unsorted input.
\<close>

theorem packer_batch_within_budget:
  assumes "0 \<le> B"
    and "b \<in> set (create_batched_sequence_datasest sequences B)"
  shows "(batch_tokens b \<le> B \<or> (\<exists>h s. b = ([h], [s]) \<and> B < int (length s)))
       \<and> (2 \<le> length (snd b) \<longrightarrow> batch_tokens b \<le> B)"
proof -
  have "\<forall>b \<in> set (batch_loop sequences B [] [] 0).
          batch_tokens b \<le> B \<or> (\<exists>h s. b = ([h], [s]) \<and> B < int (length s))"
    using assms(1) by (intro batch_loop_budget) simp_all
  with assms(2)
  have 1: "batch_tokens b \<le> B \<or> (\<exists>h s. b = ([h], [s]) \<and> B < int (length s))"
    by (simp add: create_batched_sequence_datasest_def)
  then have "2 \<le> length (snd b) \<longrightarrow> batch_tokens b \<le> B" by auto
  with 1 show ?thesis by simp
qed

theorem packer_batch_within_budget_witness:
  "(0::int) \<le> 5
   \<and> ([''c'', ''d''], [''MMM'', ''MM''])
       \<in> set (create_batched_sequence_datasest
                [(''a'', ''MMMM''), (''b'', ''MMMMMMM''), (''c'', ''MMM''), (''d'', ''MM'')] 5)
   \<and> ([''b''], [''MMMMMMM''])
       \<in> set (create_batched_sequence_datasest
                [(''a'', ''MMMM''), (''b'', ''MMMMMMM''), (''c'', ''MMM''), (''d'', ''MM'')] 5)
   \<and> batch_tokens ([''c'', ''d''], [''MMM'', ''MM'']) \<le> 5
   \<and> batch_tokens ([''b''], [''MMMMMMM'']) = 7"
proof -
  have m: "([''c'', ''d''], [''MMM'', ''MM''])
       \<in> set (create_batched_sequence_datasest
                [(''a'', ''MMMM''), (''b'', ''MMMMMMM''), (''c'', ''MMM''), (''d'', ''MM'')] 5)"
    by (simp add: create_batched_sequence_datasest_def)
  have s: "([''b''], [''MMMMMMM''])
       \<in> set (create_batched_sequence_datasest
                [(''a'', ''MMMM''), (''b'', ''MMMMMMM''), (''c'', ''MMM''), (''d'', ''MM'')] 5)"
    by (simp add: create_batched_sequence_datasest_def)
  have "batch_tokens ([''c'', ''d''], [''MMM'', ''MM'']) \<le> 5"
    using packer_batch_within_budget [OF _ m] by simp
  moreover have "batch_tokens ([''b''], [''MMMMMMM'']) = 7"
    by (simp add: batch_tokens_def)
  ultimately show ?thesis using m s by simp
qed

text \<open>
  Claim C1, as the code has it. The claim's rule is the rule of the code (a batch is closed
  the moment the next pair would exceed the budget), but its example is not what the rule
  gives: after \<open>[100, 200]\<close> is closed, the batch that starts with 300 still has room for
  50, since \<open>300 + 50 = 350 \<le> 350\<close>. For sequences of lengths 100, 200, 300 and 50 and
  budget 350 the packer emits exactly two batches, \<open>[100, 200]\<close> and \<open>[300, 50]\<close>.
\<close>

theorem packer_example_350:
  assumes "length s1 = 100" and "length s2 = 200" and "length s3 = 300" and "length s4 = 50"
  shows "create_batched_sequence_datasest [(h1, s1), (h2, s2), (h3, s3), (h4, s4)] 350
           = [([h1, h2], [s1, s2]), ([h3, h4], [s3, s4])]"
  using assms by (simp add: create_batched_sequence_datasest_def)

theorem packer_example_350_witness:
  "length (replicate 100 CHR ''M'') = 100 \<and> length (replicate 200 CHR ''M'') = 200
   \<and> length (replicate 300 CHR ''M'') = 300 \<and> length (replicate 50 CHR ''M'') = 50
   \<and> create_batched_sequence_datasest
        [(''a'', replicate 100 CHR ''M''), (''b'', replicate 200 CHR ''M''),
         (''c'', replicate 300 CHR ''M''), (''d'', replicate 50 CHR ''M'')] 350
      = [([''a'', ''b''], [replicate 100 CHR ''M'', replicate 200 CHR ''M'']),
         ([''c'', ''d''], [replicate 300 CHR ''M'', replicate 50 CHR ''M''])]"
  using packer_example_350 [of "replicate 100 CHR ''M''" "replicate 200 CHR ''M''"
      "replicate 300 CHR ''M''" "replicate 50 CHR ''M''" "''a''" "''b''" "''c''" "''d''"]
  by simp

text \<open>
  The example of claim C1 as the claim states it (three batches \<open>[100, 200]\<close>, \<open>[300]\<close>,
  \<open>[50]\<close>) is not what the packer emits.
\<close>

theorem packer_example_350_counterexample:
  "create_batched_sequence_datasest
     [(''a'', replicate 100 CHR ''M''), (''b'', replicate 200 CHR ''M''),
      (''c'', replicate 300 CHR ''M''), (''d'', replicate 50 CHR ''M'')] 350
   \<noteq> [([''a'', ''b''], [replicate 100 CHR ''M'', replicate 200 CHR ''M'']),
       ([''c''], [replicate 300 CHR ''M'']),
       ([''d''], [replicate 50 CHR ''M''])]"
  by (simp add: create_batched_sequence_datasest_def)

text \<open>
  Claim C3 at the input where the code departs from it: a single pair whose sequence (five
  residues) is longer than the budget (three). The list is not empty, yet the first batch
  the packer emits is the empty batch; the pair follows in a batch of its own.
\<close>

theorem packer_emits_empty_batch_before_oversized_first_pair:
  "create_batched_sequence_datasest [(''h'', ''MKVLA'')] 3 = [([], []), ([''h''], [''MKVLA''])]"
  by (simp add: create_batched_sequence_datasest_def)

text \<open>
  Claim C4, as the code has it. The packer has no check of the budget and raises nothing:
  with a budget \<open>\<le> 0\<close> it emits batches by the rule it follows with any other budget.
  When no input sequence is the empty string, no pair fits beside another one, and the
  batches that hold a pair are one single-pair batch per input pair, in input order.
\<close>

theorem packer_nonpositive_budget:
  assumes "B \<le> 0" and "\<forall>(h, s) \<in> set sequences. s \<noteq> []"
  shows "filter (\<lambda>b. snd b \<noteq> []) (create_batched_sequence_datasest sequences B)
           = map (\<lambda>(h, s). ([h], [s])) sequences"
proof -
  have "create_batched_sequence_datasest sequences B
          = ([], []) # map (\<lambda>(h, s). ([h], [s])) sequences"
    unfolding create_batched_sequence_datasest_def
    using assms by (intro batch_loop_nonpositive_budget) simp_all
  moreover have "filter (\<lambda>b. snd b \<noteq> []) (map (\<lambda>(h, s). ([h], [s])) xs)
                   = map (\<lambda>(h, s). ([h], [s])) xs" for xs :: "(string \<times> string) list"
    by (induction xs) auto
  ultimately show ?thesis by simp
qed

theorem packer_nonpositive_budget_witness:
  "(-1::int) \<le> 0 \<and> ''MK'' \<noteq> [] \<and> ''MKV'' \<noteq> []
   \<and> filter (\<lambda>b. snd b \<noteq> [])
        (create_batched_sequence_datasest [(''a'', ''MK''), (''b'', ''MKV'')] (-1))
        = [([''a''], [''MK'']), ([''b''], [''MKV''])]"
  using packer_nonpositive_budget [of "-1" "[(''a'', ''MK''), (''b'', ''MKV'')]"]
  by simp

text \<open>
  Claim C4 as the claim states it fails: called with budget 0 the packer returns batches,
  the first of them empty, instead of raising an error.
\<close>

theorem packer_zero_budget_counterexample:
  "create_batched_sequence_datasest [(''a'', ''MK''), (''b'', ''MKV'')] 0
     = [([], []), ([''a''], [''MK'']), ([''b''], [''MKV''])]"
  by (simp add: create_batched_sequence_datasest_def)

section \<open>Properties of the run\<close>

subsection \<open>Dictionaries built by successive assignments\<close>

lemma dict_of_Nil: "dict_of [] = []"
  by (simp add: dict_of_def)

lemma dict_of_snoc: "dict_of (kvs @ [(k, v)]) = AList.update k v (dict_of kvs)"
  by (simp add: dict_of_def)

lemma distinct_dict_of: "distinct (map fst (dict_of kvs))"
  by (induction kvs rule: rev_induct) (auto simp: dict_of_Nil dict_of_snoc distinct_update)

lemma keys_dict_of: "fst ` set (dict_of kvs) = fst ` set kvs"
proof (induction kvs rule: rev_induct)
  case Nil
  show ?case by (simp add: dict_of_Nil)
next
  case (snoc x xs)
  obtain k v where x: "x = (k, v)" by (cases x)
  have "fst ` set (dict_of (xs @ [x])) = {k} \<union> fst ` set (dict_of xs)"
    by (simp add: x dict_of_snoc dom_update)
  with snoc.IH show ?case by (simp add: x)
qed

lemma map_of_dict_of: "map_of (dict_of kvs) = map_of (rev kvs)"
  by (induction kvs rule: rev_induct) (auto simp: dict_of_Nil dict_of_snoc update_conv')

lemma update_new_key: "k \<notin> fst ` set al \<Longrightarrow> AList.update k v al = al @ [(k, v)]"
  by (induction al) auto

lemma dict_of_distinct: "distinct (map fst kvs) \<Longrightarrow> dict_of kvs = kvs"
proof (induction kvs rule: rev_induct)
  case Nil
  show ?case by (simp add: dict_of_Nil)
next
  case (snoc x xs)
  obtain k v where x: "x = (k, v)" by (cases x)
  from snoc.prems have d: "distinct (map fst xs)" and k: "k \<notin> fst ` set xs"
    by (simp_all add: x)
  from snoc.IH [OF d] k show ?case
    by (simp add: x dict_of_snoc update_new_key)
qed

subsection \<open>The loop keeps its state consistent with its history\<close>

lemma consistent_initial_state: "consistent initial_state"
  by (simp add: consistent_def initial_state_def dict_of_Nil plddt_assignments_def
      ptm_assignments_def)

lemma consistent_step:
  assumes "consistent st"
  shows "consistent
           (st\<lparr>pdb_files := AList.update (seq_id @ ''.pdb'') pdb_string (pdb_files st),
               num_completed := num_completed st + 1,
               pLDDT_dict := AList.update seq_id mean_plddt (pLDDT_dict st),
               pTM_dict := AList.update seq_id ptm (pTM_dict st),
               completed := completed st @ [(seq_id, mean_plddt, ptm)]\<rparr>)"
proof -
  have p: "plddt_assignments (completed st @ [(seq_id, mean_plddt, ptm)])
             = plddt_assignments (completed st) @ [(seq_id, mean_plddt)]"
    by (simp add: plddt_assignments_def)
  have t: "ptm_assignments (completed st @ [(seq_id, mean_plddt, ptm)])
             = ptm_assignments (completed st) @ [(seq_id, ptm)]"
    by (simp add: ptm_assignments_def)
  from assms show ?thesis
    unfolding consistent_def
    by (simp add: p t dict_of_snoc dom_update)
qed

lemma record_predictions_consistent:
  "record_predictions items st = Inr st' \<Longrightarrow> consistent st \<Longrightarrow> consistent st'"
proof (induction items arbitrary: st)
  case Nil
  then show ?case by simp
next
  case (Cons item items)
  obtain header seq pdb_string mean_plddt ptm
    where item: "item = (header, seq, pdb_string, mean_plddt, ptm)"
    by (cases item) auto
  from Cons.prems(1) obtain seq_id ws where w: "split header = seq_id # ws"
    by (cases "split header") (simp_all add: item)
  let ?st = "st\<lparr>pdb_files := AList.update (seq_id @ ''.pdb'') pdb_string (pdb_files st),
               num_completed := num_completed st + 1,
               pLDDT_dict := AList.update seq_id mean_plddt (pLDDT_dict st),
               pTM_dict := AList.update seq_id ptm (pTM_dict st),
               completed := completed st @ [(seq_id, mean_plddt, ptm)]\<rparr>"
  from Cons.prems(1) have "record_predictions items ?st = Inr st'"
    by (simp add: item w)
  moreover have "consistent ?st" using Cons.prems(2) by (rule consistent_step)
  ultimately show ?case by (rule Cons.IH)
qed

lemma predict_batches_consistent:
  "predict_batches infer k batches st = Inr st' \<Longrightarrow> consistent st \<Longrightarrow> consistent st'"
proof (induction batches arbitrary: k st)
  case Nil
  then show ?case by simp
next
  case (Cons b batches)
  obtain headers sequences where b: "b = (headers, sequences)" by (cases b)
  show ?case
  proof (cases "infer k sequences")
    case (Inl e)
    with Cons.prems(1) have "predict_batches infer (Suc k) batches st = Inr st'"
      by (simp add: b split: sum.splits)
    then show ?thesis using Cons.prems(2) by (rule Cons.IH)
  next
    case (Inr out)
    with Cons.prems(1) obtain st1 where
      1: "record_predictions
            (zip headers (zip sequences
               (zip (out_pdbs out) (zip (out_mean_plddt out) (out_ptm out))))) st = Inr st1"
      and 2: "predict_batches infer (Suc k) batches st1 = Inr st'"
      by (auto simp: b split: sum.splits if_splits)
    from 1 Cons.prems(2) have "consistent st1" by (rule record_predictions_consistent)
    with 2 show ?thesis by (rule Cons.IH)
  qed
qed

subsection \<open>The ids of the completed sequences are ids of headers\<close>






subsection \<open>The two readers of the FASTA file agree on the ids\<close>





subsection \<open>The parts of a run\<close>

lemma average_InrD:
  assumes "average ar vs n = Inr a" and "vs \<noteq> []"
  shows "Some a = map_option (\<lambda>s. score_div ar s n) (py_sum ar vs)"
  using assms by (cases vs) (simp_all add: average_def py_sum_def)

lemma run_predictions_InrD:
  assumes "run_predictions ar file_lines max_tokens_per_batch infer = Inr rep"
  shows "predict_batches infer 0
           (create_batched_sequence_datasest
              (sort_key (\<lambda>header_seq. length (snd header_seq)) (read_fasta file_lines))
              max_tokens_per_batch)
           initial_state = Inr (final rep)"
    and "average ar (map snd (pLDDT_dict (final rep))) (num_completed (final rep))
           = Inr (avg_pLDDT rep)"
    and "average ar (map snd (pTM_dict (final rep))) (num_completed (final rep))
           = Inr (avg_pTM rep)"
  using assms
  by (auto simp: run_predictions_def Let_def split: sum.splits)

lemma run_predictions_consistent:
  assumes "run_predictions ar file_lines max_tokens_per_batch infer = Inr rep"
  shows "consistent (final rep)"
  using run_predictions_InrD(1) [OF assms] consistent_initial_state
  by (rule predict_batches_consistent)






subsection \<open>The example runs, evaluated\<close>


lemma run_predictions_twin_example:
  "run_predictions exact_arithmetic twin_lines 8 (infer_scores [80, 90] [0.5, 0.75])
     = Inr twin_report"
  by code_simp

lemma run_predictions_twin_zero_example:
  "run_predictions exact_arithmetic twin_lines 8 (infer_scores [0, 70] [0, 0.5])
     = Inr twin_zero_report"
  by code_simp

subsection \<open>Failures of the inference call\<close>

lemma predict_batches_not_RuntimeError:
  assumes "infer k sequences = Inl e" and "\<forall>args. e \<noteq> RuntimeError args"
  shows "predict_batches infer k ((headers, sequences) # rest) st = Inl e"
  using assms by (cases e) (simp_all add: except_RuntimeError_def)



lemma predict_batches_call_false:
  assumes "infer k sequences = Inl (RuntimeError (a # others))"
    and "startswith_call a = Inr False"
  shows "predict_batches infer k ((headers, sequences) # rest) st
           = Inl (RuntimeError (a # others))"
  using assms by (simp add: except_RuntimeError_def)

lemma predict_batches_call_true:
  assumes "infer k sequences = Inl (RuntimeError (a # others))"
    and "startswith_call a = Inr True"
    and "sequences \<noteq> []" and "length headers = length sequences"
  shows "predict_batches infer k ((headers, sequences) # rest) st
           = predict_batches infer (Suc k) rest st"
proof -
  from assms(3,4) have "headers \<noteq> []" by auto
  with assms show ?thesis by (simp add: except_RuntimeError_def)
qed

lemma predict_batches_other_message:
  assumes "infer k sequences = Inl (RuntimeError (PyStr msg # others))"
    and "\<not> startswith msg ''CUDA out of memory''"
  shows "predict_batches infer k ((headers, sequences) # rest) st
           = Inl (RuntimeError (PyStr msg # others))"
proof -
  from assms(2) have "startswith_call (PyStr msg) = Inr False" by simp
  with assms(1) show ?thesis by (rule predict_batches_call_false)
qed

lemma predict_batches_oom:
  assumes "infer k sequences = Inl (RuntimeError (PyStr msg # others))"
    and "startswith msg ''CUDA out of memory''"
    and "sequences \<noteq> []" and "length headers = length sequences"
  shows "predict_batches infer k ((headers, sequences) # rest) st
           = predict_batches infer (Suc k) rest st"
proof -
  from assms(2) have "startswith_call (PyStr msg) = Inr True" by simp
  with assms(1) show ?thesis using assms(3,4) by (rule predict_batches_call_true)
qed

subsection \<open>The claims about the run\<close>

text \<open>
  Claim C2 at the input where the code departs from it: one sequence, whose inference call
  runs out of device memory. The loop skips the batch, no sequence completes, and the
  quotient of line 248 by \<^verbatim>\<open>num_completed = 0\<close> raises \<^verbatim>\<open>ZeroDivisionError\<close>: the run
  ends with that exception instead of reporting that there is no average.
\<close>

theorem run_divides_by_zero_completed:
  "run ar [''>a'' @ [CHR 0x0A], ''MKV'' @ [CHR 0x0A]] 1024 infer_always_oom
     = Inl ZeroDivisionError"
  by (simp add: run_def run_predictions_def read_fasta_def append_entry_def strip_def
      startswith_def isspace_def create_batched_sequence_datasest_def infer_always_oom_def
      cuda_oom_def except_RuntimeError_def initial_state_def average_def py_sum_def)

text \<open>
  Claim C7, as the code has it. For a batch that is not empty: when the inference call
  raises a \<^verbatim>\<open>RuntimeError\<close> whose first argument is a string that starts with
  \<^verbatim>\<open>CUDA out of memory\<close>, the loop goes on with the next batch from the very state it
  had before the batch, so no file is written and no aggregate entry is added for the
  batch. When the call raises an exception that is not a \<^verbatim>\<open>RuntimeError\<close>, or a
  \<^verbatim>\<open>RuntimeError\<close> whose first argument is a string that does not start with that
  phrase, the loop ends with this very exception.
\<close>

theorem inference_failure_policy:
  "(infer k sequences = Inl (RuntimeError (PyStr msg # others))
      \<and> startswith msg ''CUDA out of memory''
      \<and> sequences \<noteq> [] \<and> length headers = length sequences
      \<longrightarrow> predict_batches infer k ((headers, sequences) # rest) st
            = predict_batches infer (Suc k) rest st)
   \<and> (infer k sequences = Inl e \<and> (\<forall>args. e \<noteq> RuntimeError args)
      \<longrightarrow> predict_batches infer k ((headers, sequences) # rest) st = Inl e)
   \<and> (infer k sequences = Inl (RuntimeError (PyStr msg # others))
      \<and> \<not> startswith msg ''CUDA out of memory''
      \<longrightarrow> predict_batches infer k ((headers, sequences) # rest) st
            = Inl (RuntimeError (PyStr msg # others)))"
proof (intro conjI impI)
  assume "infer k sequences = Inl (RuntimeError (PyStr msg # others))
            \<and> startswith msg ''CUDA out of memory''
            \<and> sequences \<noteq> [] \<and> length headers = length sequences"
  then show "predict_batches infer k ((headers, sequences) # rest) st
               = predict_batches infer (Suc k) rest st"
    by (elim conjE) (rule predict_batches_oom)
next
  assume "infer k sequences = Inl e \<and> (\<forall>args. e \<noteq> RuntimeError args)"
  then show "predict_batches infer k ((headers, sequences) # rest) st = Inl e"
    by (elim conjE) (rule predict_batches_not_RuntimeError)
next
  assume "infer k sequences = Inl (RuntimeError (PyStr msg # others))
            \<and> \<not> startswith msg ''CUDA out of memory''"
  then show "predict_batches infer k ((headers, sequences) # rest) st
               = Inl (RuntimeError (PyStr msg # others))"
    by (elim conjE) (rule predict_batches_other_message)
qed

theorem inference_failure_policy_witness:
  "predict_batches (infer_failing_first cuda_oom) 0 two_batches initial_state
     = Inr second_batch_done
   \<and> predict_batches (infer_failing_first (OtherError ''KeyboardInterrupt'' [])) 0
       two_batches initial_state
     = Inl (OtherError ''KeyboardInterrupt'' [])
   \<and> predict_batches (infer_failing_first (RuntimeError [PyStr ''CUDA error: device-side assert'']))
       0 two_batches initial_state
     = Inl (RuntimeError [PyStr ''CUDA error: device-side assert''])"
proof -
  let ?oom = "''CUDA out of memory. Tried to allocate 2.00 GiB''"
  let ?dev = "''CUDA error: device-side assert''"
  have later: "predict_batches (infer_failing_first cuda_oom) (Suc 0) [([''b''], [''MKV''])]
                 initial_state = Inr second_batch_done"
    by code_simp
  have "infer_failing_first cuda_oom 0 [''MK''] = Inl (RuntimeError (PyStr ?oom # []))"
    and "startswith ?oom ''CUDA out of memory''"
    and "[''MK''] \<noteq> []" and "length [''a''] = length [''MK'']"
    by (simp_all add: infer_failing_first_def cuda_oom_def startswith_def)
  with inference_failure_policy
    [of "infer_failing_first cuda_oom" 0 "[''MK'']" ?oom "[]" "[''a'']" "[([''b''], [''MKV''])]"
        initial_state]
  have 1: "predict_batches (infer_failing_first cuda_oom) 0 two_batches initial_state
             = Inr second_batch_done"
    using later by (simp add: two_batches_def)
  have "infer_failing_first (OtherError ''KeyboardInterrupt'' []) 0 [''MK'']
          = Inl (OtherError ''KeyboardInterrupt'' [])"
    and "\<forall>args. OtherError ''KeyboardInterrupt'' [] \<noteq> RuntimeError args"
    by (simp_all add: infer_failing_first_def)
  with inference_failure_policy
    [of "infer_failing_first (OtherError ''KeyboardInterrupt'' [])" 0 "[''MK'']" _ _ "[''a'']"
        "[([''b''], [''MKV''])]" initial_state "OtherError ''KeyboardInterrupt'' []"]
  have 2: "predict_batches (infer_failing_first (OtherError ''KeyboardInterrupt'' [])) 0
             two_batches initial_state = Inl (OtherError ''KeyboardInterrupt'' [])"
    by (simp add: two_batches_def)
  have "infer_failing_first (RuntimeError [PyStr ?dev]) 0 [''MK'']
          = Inl (RuntimeError (PyStr ?dev # []))"
    and "\<not> startswith ?dev ''CUDA out of memory''"
    by (simp_all add: infer_failing_first_def startswith_def)
  with inference_failure_policy
    [of "infer_failing_first (RuntimeError [PyStr ?dev])" 0 "[''MK'']" ?dev "[]" "[''a'']"
        "[([''b''], [''MKV''])]" initial_state]
  have 3: "predict_batches (infer_failing_first (RuntimeError [PyStr ?dev])) 0
             two_batches initial_state = Inl (RuntimeError [PyStr ?dev])"
    by (simp add: two_batches_def)
  from 1 2 3 show ?thesis by simp
qed

text \<open>
  Claim C7 as the claim states it fails at two inputs. A \<^verbatim>\<open>RuntimeError\<close> without
  arguments is not raised again: the handler's \<^verbatim>\<open>e.args[0]\<close> raises \<^verbatim>\<open>IndexError\<close>
  in its place. And when the call for an empty batch (the first batch the packer emits for
  one five-residue sequence and a budget of three) runs out of memory, the loop does not go
  on with the next batch: the handler's \<^verbatim>\<open>headers[0]\<close> raises \<^verbatim>\<open>IndexError\<close>.
\<close>

theorem inference_failure_policy_counterexample:
  "predict_batches (infer_failing_first (RuntimeError [])) 0 two_batches initial_state
     = Inl IndexError
   \<and> Inl IndexError \<noteq> (Inl (RuntimeError []) :: exn + real run_state)
   \<and> create_batched_sequence_datasest [(''h'', ''MKVLA'')] 3 = [([], []), ([''h''], [''MKVLA''])]
   \<and> predict_batches (infer_failing_first cuda_oom) 0
        (create_batched_sequence_datasest [(''h'', ''MKVLA'')] 3) initial_state
     = Inl IndexError"
  by code_simp







text \<open>
  Claim C9, as the code has it. When the run logs its averages (line 250, before the FASTA
  file is read back), the counter is the number of completed sequences (at least one), and
  each dictionary holds one score per distinct id of a completed sequence, the score of
  the sequence with that id that completed last. Each reported average is the sum of the
  scores in the dictionary, taken by \<^verbatim>\<open>sum\<close> in the order of the dictionary, divided by
  the number of all completed sequences. When the ids of the completed sequences are
  distinct, each reported average is the mean of the scores of all completed sequences as
  the arithmetic of the scores computes it: the scores summed in the order of completion,
  and the sum divided by their number. This holds in every arithmetic of the scores.
\<close>

theorem reported_averages:
  assumes "run_predictions ar file_lines max_tokens_per_batch infer = Inr rep"
  shows "num_completed (final rep) = length (completed (final rep))
       \<and> 0 < length (completed (final rep))
       \<and> pLDDT_dict (final rep) = dict_of (plddt_assignments (completed (final rep)))
       \<and> pTM_dict (final rep) = dict_of (ptm_assignments (completed (final rep)))
       \<and> distinct (map fst (pLDDT_dict (final rep)))
       \<and> distinct (map fst (pTM_dict (final rep)))
       \<and> map_of (pLDDT_dict (final rep))
           = map_of (rev (plddt_assignments (completed (final rep))))
       \<and> map_of (pTM_dict (final rep)) = map_of (rev (ptm_assignments (completed (final rep))))
       \<and> Some (avg_pLDDT rep)
           = map_option (\<lambda>s. score_div ar s (length (completed (final rep))))
               (py_sum ar (map snd (pLDDT_dict (final rep))))
       \<and> Some (avg_pTM rep)
           = map_option (\<lambda>s. score_div ar s (length (completed (final rep))))
               (py_sum ar (map snd (pTM_dict (final rep))))
       \<and> (distinct (map fst (completed (final rep)))
            \<longrightarrow> Some (avg_pLDDT rep)
                  = py_mean ar (map snd (plddt_assignments (completed (final rep))))
              \<and> Some (avg_pTM rep)
                  = py_mean ar (map snd (ptm_assignments (completed (final rep)))))"
proof -
  let ?c = "completed (final rep)"
  let ?P = "plddt_assignments ?c"
  let ?T = "ptm_assignments ?c"
  from run_predictions_consistent [OF assms] have c: "consistent (final rep)" .
  then have n: "num_completed (final rep) = length ?c"
    and p: "pLDDT_dict (final rep) = dict_of ?P"
    and t: "pTM_dict (final rep) = dict_of ?T"
    by (simp_all add: consistent_def)
  note ap = run_predictions_InrD(2) [OF assms]
  note at = run_predictions_InrD(3) [OF assms]
  have lp: "length ?P = length ?c" and lt: "length ?T = length ?c"
    by (simp_all add: plddt_assignments_def ptm_assignments_def)
  have kp: "map fst ?P = map fst ?c" and kt: "map fst ?T = map fst ?c"
    by (simp_all add: plddt_assignments_def ptm_assignments_def case_prod_unfold)
  have len: "0 < length ?c"
  proof (rule ccontr)
    assume "\<not> 0 < length ?c"
    then have "?c = []" by simp
    then have "pLDDT_dict (final rep) = []" and "num_completed (final rep) = 0"
      using p n by (simp_all add: plddt_assignments_def dict_of_Nil)
    with ap show False by (simp add: average_def py_sum_def)
  qed
  have "fst ` set (dict_of ?P) \<noteq> {}" and "fst ` set (dict_of ?T) \<noteq> {}"
    using len by (auto simp: keys_dict_of plddt_assignments_def ptm_assignments_def)
  then have nep: "map snd (pLDDT_dict (final rep)) \<noteq> []"
    and net: "map snd (pTM_dict (final rep)) \<noteq> []"
    by (auto simp: p t)
  have ap': "Some (avg_pLDDT rep)
               = map_option (\<lambda>s. score_div ar s (length ?c))
                   (py_sum ar (map snd (pLDDT_dict (final rep))))"
    using average_InrD [OF ap nep] by (simp add: n)
  have at': "Some (avg_pTM rep)
               = map_option (\<lambda>s. score_div ar s (length ?c))
                   (py_sum ar (map snd (pTM_dict (final rep))))"
    using average_InrD [OF at net] by (simp add: n)
  have d: "Some (avg_pLDDT rep) = py_mean ar (map snd ?P)
         \<and> Some (avg_pTM rep) = py_mean ar (map snd ?T)"
    if "distinct (map fst ?c)"
  proof -
    from that have "dict_of ?P = ?P" and "dict_of ?T = ?T"
      by (simp_all add: dict_of_distinct kp kt)
    with ap' at' show ?thesis by (simp add: py_mean_def p t lp lt)
  qed
  have dp: "distinct (map fst (pLDDT_dict (final rep)))"
    and dt: "distinct (map fst (pTM_dict (final rep)))"
    by (simp_all add: p t distinct_dict_of)
  have mp: "map_of (pLDDT_dict (final rep)) = map_of (rev ?P)"
    and mt: "map_of (pTM_dict (final rep)) = map_of (rev ?T)"
    by (simp_all add: p t map_of_dict_of)
  from n len p t dp dt mp mt ap' at' d show ?thesis
    by (simp del: distinct_map)
qed

text \<open>
  Two completed sequences share the id \<^verbatim>\<open>a\<close>, with mean confidences 80 and 90: the
  dictionary keeps 90 only, and the reported average is \<open>90 / 2 = 45\<close>, where the mean of
  the two scores is 85.
\<close>

theorem reported_averages_witness:
  "run_predictions exact_arithmetic twin_lines 8 (infer_scores [80, 90] [0.5, 0.75])
     = Inr twin_report
   \<and> completed (final twin_report) = [(''a'', 80, 0.5), (''a'', 90, 0.75)]
   \<and> pLDDT_dict (final twin_report) = dict_of [(''a'', 80), (''a'', 90)]
   \<and> pLDDT_dict (final twin_report) = [(''a'', 90)]
   \<and> avg_pLDDT twin_report = 90 / 2
   \<and> py_mean exact_arithmetic (map snd (plddt_assignments (completed (final twin_report))))
       = Some 85
   \<and> \<not> distinct (map fst (completed (final twin_report)))"
proof -
  have c: "completed (final twin_report) = [(''a'', 80, 0.5), (''a'', 90, 0.75)]"
    and d: "pLDDT_dict (final twin_report) = [(''a'', 90)]"
    by (simp_all add: twin_report_def)
  from reported_averages [OF run_predictions_twin_example]
  have "pLDDT_dict (final twin_report)
          = dict_of (plddt_assignments (completed (final twin_report)))"
    and "Some (avg_pLDDT twin_report)
           = map_option (\<lambda>s. score_div exact_arithmetic s (length (completed (final twin_report))))
               (py_sum exact_arithmetic (map snd (pLDDT_dict (final twin_report))))"
    by blast+
  then show ?thesis
    using run_predictions_twin_example
    by (simp add: c d plddt_assignments_def py_mean_def py_sum_def exact_arithmetic_def)
qed

text \<open>
  Claim C9 as the claim states it fails where an overwritten score is zero: two completed
  sequences share the id \<^verbatim>\<open>a\<close>, the first with both scores 0, the second with the scores
  70 and 0.5. The ids are not distinct, and yet the reported averages 35 and 0.25 are the
  means of the scores of the two completed sequences. (Every sum and quotient of this run
  is a value of the floating-point formats, so that the tensors compute the same numbers.)
\<close>

theorem reported_averages_counterexample:
  "run_predictions exact_arithmetic twin_lines 8 (infer_scores [0, 70] [0, 0.5])
     = Inr twin_zero_report
   \<and> completed (final twin_zero_report) = [(''a'', 0, 0), (''a'', 70, 0.5)]
   \<and> \<not> distinct (map fst (completed (final twin_zero_report)))
   \<and> avg_pLDDT twin_zero_report = 35
   \<and> py_mean exact_arithmetic (map snd (plddt_assignments (completed (final twin_zero_report))))
       = Some 35
   \<and> avg_pTM twin_zero_report = 0.25
   \<and> py_mean exact_arithmetic (map snd (ptm_assignments (completed (final twin_zero_report))))
       = Some 0.25"
  using run_predictions_twin_zero_example
  by (simp add: twin_zero_report_def plddt_assignments_def ptm_assignments_def py_mean_def
      py_sum_def exact_arithmetic_def)

end
